theory Spec2Isabelle
  imports Main
begin

section \<open>EventManager.hpp: single-binding callback slots\<close>

text \<open>
  The header declares four classes, \<^verbatim>\<open>EventCallbackVoid\<close>, \<^verbatim>\<open>EventCallbackArg<P>\<close>,
  \<^verbatim>\<open>EventCallbackRefArg<P>\<close> and \<^verbatim>\<open>EventCallbackPtrArg<P>\<close>. Each holds an object pointer
  \<^verbatim>\<open>m_object\<close> and a pointer to member function \<^verbatim>\<open>m_eventReceive\<close>, both initialised to
  \<^verbatim>\<open>nullptr\<close>, and offers \<^verbatim>\<open>set(object, method)\<close> and \<^verbatim>\<open>invoke(...)\<close>.

  The embedding passes state explicitly. A slot is a record of its two fields. The memory
  the program works on is a store of cells. A pointer to member function is a value that
  designates a member function; a table \<open>code\<close> gives the body of each one as a function on
  the store. A body may leave by an exception, which is the left summand of its result.
\<close>

subsection \<open>Pointers and the store\<close>

type_synonym addr = nat

text \<open>A C++ pointer is either \<^verbatim>\<open>nullptr\<close> or designates something.\<close>

datatype 'a ptr = nullptr | Ptr 'a

text \<open>The truth value of a pointer in a condition, as in \<^verbatim>\<open>if (m_object && ...)\<close>.\<close>

fun non_null :: "'a ptr \<Rightarrow> bool" where
  "non_null nullptr = False"
| "non_null (Ptr x) = True"

text \<open>
  The store: the cells that hold a value, and the next address that has never been used.
  Objects with automatic storage (parameters) take their address from \<open>fresh\<close>.
\<close>

record 'v store =
  cells :: "addr \<Rightarrow> 'v option"
  fresh :: addr

definition alloc :: "'v \<Rightarrow> 'v store \<Rightarrow> addr \<times> 'v store" where
  "alloc v st = (fresh st, st\<lparr>cells := (cells st)(fresh st \<mapsto> v), fresh := Suc (fresh st)\<rparr>)"

definition release :: "addr \<Rightarrow> 'v store \<Rightarrow> 'v store" where
  "release a st = st\<lparr>cells := (cells st)(a := None)\<rparr>"

definition assign :: "addr \<Rightarrow> 'v \<Rightarrow> 'v store \<Rightarrow> 'v store" where
  "assign a v st = st\<lparr>cells := (cells st)(a \<mapsto> v)\<rparr>"

subsection \<open>Member functions and their calls\<close>

text \<open>
  The body of a member function takes \<^verbatim>\<open>this\<close>, its argument and the store. The four
  signatures of the header, \<^verbatim>\<open>void (T::*)()\<close>, \<^verbatim>\<open>void (T::*)(P)\<close>, \<^verbatim>\<open>void (T::*)(P&)\<close> and
  \<^verbatim>\<open>void (T::*)(P*)\<close>:
  \<^item> a parameter of type \<^verbatim>\<open>P\<close> is an object of the callee, so the body takes its address;
  \<^item> a parameter of type \<^verbatim>\<open>P&\<close> is the address of the caller's object;
  \<^item> a parameter of type \<^verbatim>\<open>P*\<close> is a pointer, possibly null.
\<close>

type_synonym ('e, 'v) CallbackVoid = "addr \<Rightarrow> 'v store \<Rightarrow> 'e + 'v store"
type_synonym ('e, 'v) CallbackArg = "addr \<Rightarrow> addr \<Rightarrow> 'v store \<Rightarrow> 'e + 'v store"
type_synonym ('e, 'v) CallbackRefArg = "addr \<Rightarrow> addr \<Rightarrow> 'v store \<Rightarrow> 'e + 'v store"
type_synonym ('e, 'v) CallbackPtrArg = "addr \<Rightarrow> addr ptr \<Rightarrow> 'v store \<Rightarrow> 'e + 'v store"

text \<open>
  The call \<^verbatim>\<open>(object->*method)(value)\<close> of a member function that takes \<^verbatim>\<open>P\<close> by value: the
  parameter is a new object initialised with a copy of the argument, the body runs on it,
  and the parameter is destroyed when the call returns. \<^verbatim>\<open>P\<close> is copied cell by cell (no
  user-written copy constructor).
\<close>

definition call_by_value :: "('e, 'v) CallbackArg \<Rightarrow> addr \<Rightarrow> 'v \<Rightarrow> 'v store \<Rightarrow> 'e + 'v store" where
  "call_by_value body this value st =
     (case alloc value st of
        (p, st1) \<Rightarrow>
          (case body this p st1 of
             Inl e \<Rightarrow> Inl e
           | Inr st2 \<Rightarrow> Inr (release p st2)))"

subsection \<open>The slot\<close>

text \<open>
  The four classes have the same two private members,
  \<^verbatim>\<open>EventManager *m_object = nullptr\<close> and \<^verbatim>\<open>void (EventManager::*m_eventReceive)(...) = nullptr\<close>;
  one record serves the four. \<open>'m\<close> is the type of the values that designate member
  functions of the variant's signature.
\<close>

record 'm EventCallback =
  m_object :: "addr ptr"
  m_eventReceive :: "'m ptr"

type_synonym 'm EventCallbackVoid = "'m EventCallback"
type_synonym 'm EventCallbackArg = "'m EventCallback"
type_synonym 'm EventCallbackRefArg = "'m EventCallback"
type_synonym 'm EventCallbackPtrArg = "'m EventCallback"

text \<open>The state of a slot after construction: the default member initialisers.\<close>

definition empty_slot :: "'m EventCallback" where
  "empty_slot = \<lparr>m_object = nullptr, m_eventReceive = nullptr\<rparr>"

subsection \<open>\<^verbatim>\<open>set\<close>\<close>

text \<open>
  \<^verbatim>\<open>m_object = static_cast<EventManager*>(object);\<close>
  \<^verbatim>\<open>m_eventReceive = reinterpret_cast<void (EventManager::*)()>(method);\<close>
  Both casts keep a null pointer null and keep what a non-null pointer designates (the
  header relies on \<^verbatim>\<open>EventManager\<close> being the first and only base of \<^verbatim>\<open>T\<close>), so they
  are the identity here. Neither argument is checked.
\<close>

definition set_Void :: "'m EventCallbackVoid \<Rightarrow> addr ptr \<Rightarrow> 'm ptr \<Rightarrow> 'm EventCallbackVoid" where
  "set_Void s object method = s\<lparr>m_object := object, m_eventReceive := method\<rparr>"

definition set_Arg :: "'m EventCallbackArg \<Rightarrow> addr ptr \<Rightarrow> 'm ptr \<Rightarrow> 'm EventCallbackArg" where
  "set_Arg s object method = s\<lparr>m_object := object, m_eventReceive := method\<rparr>"

definition set_RefArg :: "'m EventCallbackRefArg \<Rightarrow> addr ptr \<Rightarrow> 'm ptr \<Rightarrow> 'm EventCallbackRefArg" where
  "set_RefArg s object method = s\<lparr>m_object := object, m_eventReceive := method\<rparr>"

definition set_PtrArg :: "'m EventCallbackPtrArg \<Rightarrow> addr ptr \<Rightarrow> 'm ptr \<Rightarrow> 'm EventCallbackPtrArg" where
  "set_PtrArg s object method = s\<lparr>m_object := object, m_eventReceive := method\<rparr>"

subsection \<open>\<^verbatim>\<open>invoke\<close>\<close>

text \<open>
  \<^verbatim>\<open>if (m_object && m_eventReceive) { (m_object->*m_eventReceive)(...); }\<close>
  The result is the slot after the call (\<^verbatim>\<open>invoke\<close> is not \<^verbatim>\<open>const\<close>, but assigns
  neither field) and either the exception that left the handler or the store after the
  call. The slot is not a cell of the store: a handler that calls \<^verbatim>\<open>set\<close> on the slot
  that is invoking it is outside this model.
\<close>

definition invoke_Void ::
  "('m \<Rightarrow> ('e, 'v) CallbackVoid) \<Rightarrow> 'm EventCallbackVoid \<Rightarrow> 'v store
     \<Rightarrow> 'm EventCallbackVoid \<times> ('e + 'v store)" where
  "invoke_Void code s st =
     (case m_object s of
        nullptr \<Rightarrow> (s, Inr st)
      | Ptr obj \<Rightarrow>
          (case m_eventReceive s of
             nullptr \<Rightarrow> (s, Inr st)
           | Ptr m \<Rightarrow> (s, code m obj st)))"

definition invoke_Arg ::
  "('m \<Rightarrow> ('e, 'v) CallbackArg) \<Rightarrow> 'm EventCallbackArg \<Rightarrow> 'v \<Rightarrow> 'v store
     \<Rightarrow> 'm EventCallbackArg \<times> ('e + 'v store)" where
  "invoke_Arg code s value st =
     (case m_object s of
        nullptr \<Rightarrow> (s, Inr st)
      | Ptr obj \<Rightarrow>
          (case m_eventReceive s of
             nullptr \<Rightarrow> (s, Inr st)
           | Ptr m \<Rightarrow> (s, call_by_value (code m) obj value st)))"

definition invoke_RefArg ::
  "('m \<Rightarrow> ('e, 'v) CallbackRefArg) \<Rightarrow> 'm EventCallbackRefArg \<Rightarrow> addr \<Rightarrow> 'v store
     \<Rightarrow> 'm EventCallbackRefArg \<times> ('e + 'v store)" where
  "invoke_RefArg code s value st =
     (case m_object s of
        nullptr \<Rightarrow> (s, Inr st)
      | Ptr obj \<Rightarrow>
          (case m_eventReceive s of
             nullptr \<Rightarrow> (s, Inr st)
           | Ptr m \<Rightarrow> (s, code m obj value st)))"

definition invoke_PtrArg ::
  "('m \<Rightarrow> ('e, 'v) CallbackPtrArg) \<Rightarrow> 'm EventCallbackPtrArg \<Rightarrow> addr ptr \<Rightarrow> 'v store
     \<Rightarrow> 'm EventCallbackPtrArg \<times> ('e + 'v store)" where
  "invoke_PtrArg code s value st =
     (case m_object s of
        nullptr \<Rightarrow> (s, Inr st)
      | Ptr obj \<Rightarrow>
          (case m_eventReceive s of
             nullptr \<Rightarrow> (s, Inr st)
           | Ptr m \<Rightarrow> (s, code m obj value st)))"

subsection \<open>Sequences of calls on one slot\<close>

text \<open>
  What a client can do with a slot: call \<^verbatim>\<open>set\<close> with any two pointers and call
  \<^verbatim>\<open>invoke\<close> with any argument. \<open>run\<close> performs such calls in order on one slot and one
  store, and stops at the first call that an exception leaves.
\<close>

datatype ('m, 'a) slot_call = Set "addr ptr" "'m ptr" | Invoke 'a

fun run ::
  "('m EventCallback \<Rightarrow> addr ptr \<Rightarrow> 'm ptr \<Rightarrow> 'm EventCallback)
     \<Rightarrow> ('m EventCallback \<Rightarrow> 'a \<Rightarrow> 'st \<Rightarrow> 'm EventCallback \<times> ('e + 'st))
     \<Rightarrow> ('m, 'a) slot_call list \<Rightarrow> 'm EventCallback \<Rightarrow> 'st
     \<Rightarrow> 'm EventCallback \<times> ('e + 'st)" where
  "run setf invf [] s st = (s, Inr st)"
| "run setf invf (Set object method # cs) s st = run setf invf cs (setf s object method) st"
| "run setf invf (Invoke a # cs) s st =
     (case invf s a st of
        (s', Inl e) \<Rightarrow> (s', Inl e)
      | (s', Inr st') \<Rightarrow> run setf invf cs s' st')"

definition run_Void ::
  "('m \<Rightarrow> ('e, 'v) CallbackVoid) \<Rightarrow> ('m, unit) slot_call list \<Rightarrow> 'm EventCallbackVoid
     \<Rightarrow> 'v store \<Rightarrow> 'm EventCallbackVoid \<times> ('e + 'v store)" where
  "run_Void code = run set_Void (\<lambda>s u. invoke_Void code s)"

definition run_Arg ::
  "('m \<Rightarrow> ('e, 'v) CallbackArg) \<Rightarrow> ('m, 'v) slot_call list \<Rightarrow> 'm EventCallbackArg
     \<Rightarrow> 'v store \<Rightarrow> 'm EventCallbackArg \<times> ('e + 'v store)" where
  "run_Arg code = run set_Arg (invoke_Arg code)"

definition run_RefArg ::
  "('m \<Rightarrow> ('e, 'v) CallbackRefArg) \<Rightarrow> ('m, addr) slot_call list \<Rightarrow> 'm EventCallbackRefArg
     \<Rightarrow> 'v store \<Rightarrow> 'm EventCallbackRefArg \<times> ('e + 'v store)" where
  "run_RefArg code = run set_RefArg (invoke_RefArg code)"

definition run_PtrArg ::
  "('m \<Rightarrow> ('e, 'v) CallbackPtrArg) \<Rightarrow> ('m, addr ptr) slot_call list \<Rightarrow> 'm EventCallbackPtrArg
     \<Rightarrow> 'v store \<Rightarrow> 'm EventCallbackPtrArg \<times> ('e + 'v store)" where
  "run_PtrArg code = run set_PtrArg (invoke_PtrArg code)"

text \<open>
  The same member function called directly, once for each argument of a list, stopping at
  the first exception: what a sequence of \<^verbatim>\<open>invoke\<close> calls is compared with.
\<close>

fun call_all :: "('a \<Rightarrow> 'st \<Rightarrow> 'e + 'st) \<Rightarrow> 'a list \<Rightarrow> 'st \<Rightarrow> 'e + 'st" where
  "call_all f [] st = Inr st"
| "call_all f (a # as) st =
     (case f a st of
        Inl e \<Rightarrow> Inl e
      | Inr st' \<Rightarrow> call_all f as st')"

subsection \<open>States of a slot\<close>

definition slot_empty :: "'m EventCallback \<Rightarrow> bool" where
  "slot_empty s = (\<not> non_null (m_object s) \<and> \<not> non_null (m_eventReceive s))"

definition slot_bound :: "'m EventCallback \<Rightarrow> bool" where
  "slot_bound s = (non_null (m_object s) \<and> non_null (m_eventReceive s))"

definition both_or_neither :: "'m EventCallback \<Rightarrow> bool" where
  "both_or_neither s = (non_null (m_object s) = non_null (m_eventReceive s))"

text \<open>Restrictions on the arguments of the \<^verbatim>\<open>set\<close> calls of a sequence.\<close>

fun set_args_paired :: "('m, 'a) slot_call \<Rightarrow> bool" where
  "set_args_paired (Set object method) = (non_null object = non_null method)"
| "set_args_paired (Invoke a) = True"

fun set_args_non_null :: "('m, 'a) slot_call \<Rightarrow> bool" where
  "set_args_non_null (Set object method) = (non_null object \<and> non_null method)"
| "set_args_non_null (Invoke a) = True"

subsection \<open>Test objects\<close>

text \<open>
  The header comes with no client code. The objects below are the test objects that the
  scenarios of the specification describe (a counter, a method that doubles its argument
  in place, a method that records its argument); they are inputs of the theorems, with
  cells holding \<open>int\<close>. An object has one field, kept in the cell at the object's address.
  A body that reads a cell holding nothing fails.
\<close>

datatype fault = Dangling

text \<open>\<^verbatim>\<open>void increment() { ++count; }\<close>\<close>

definition increment :: "(fault, int) CallbackVoid" where
  "increment this st =
     (case cells st this of
        None \<Rightarrow> Inl Dangling
      | Some n \<Rightarrow> Inr (assign this (n + 1) st))"

text \<open>\<^verbatim>\<open>void clear() { count = 0; }\<close>\<close>

definition clear :: "(fault, int) CallbackVoid" where
  "clear this st =
     (case cells st this of
        None \<Rightarrow> Inl Dangling
      | Some n \<Rightarrow> Inr (assign this 0 st))"

text \<open>\<^verbatim>\<open>void twice(int &v) { v *= 2; }\<close>, and the same body for \<^verbatim>\<open>void twice(int v)\<close>.\<close>

definition twice :: "addr \<Rightarrow> addr \<Rightarrow> int store \<Rightarrow> fault + int store" where
  "twice this v st =
     (case cells st v of
        None \<Rightarrow> Inl Dangling
      | Some n \<Rightarrow> Inr (assign v (2 * n) st))"

text \<open>\<^verbatim>\<open>void record(int v) { seen = v; }\<close>\<close>

definition record_arg :: "(fault, int) CallbackArg" where
  "record_arg this v st =
     (case cells st v of
        None \<Rightarrow> Inl Dangling
      | Some n \<Rightarrow> Inr (assign this n st))"

text \<open>\<^verbatim>\<open>void note(int *v) { seen = (v == nullptr) ? 1 : 0; }\<close>: the pointer is not dereferenced.\<close>

definition note_null :: "(fault, int) CallbackPtrArg" where
  "note_null this v st = Inr (assign this (case v of nullptr \<Rightarrow> 1 | Ptr a \<Rightarrow> 0) st)"

text \<open>The member functions of the test objects, by name, for each signature.\<close>

datatype member = M_increment | M_clear | M_twice | M_record | M_note

definition code_Void :: "member \<Rightarrow> (fault, int) CallbackVoid" where
  "code_Void m = (case m of M_clear \<Rightarrow> clear | _ \<Rightarrow> increment)"

definition code_Arg :: "member \<Rightarrow> (fault, int) CallbackArg" where
  "code_Arg m = (case m of M_twice \<Rightarrow> twice | _ \<Rightarrow> record_arg)"

definition code_RefArg :: "member \<Rightarrow> (fault, int) CallbackRefArg" where
  "code_RefArg m = twice"

definition code_PtrArg :: "member \<Rightarrow> (fault, int) CallbackPtrArg" where
  "code_PtrArg m = note_null"

text \<open>A store with two objects, at addresses 0 and 1, whose fields hold \<open>c0\<close> and \<open>c1\<close>.\<close>

definition two_cells :: "int \<Rightarrow> int \<Rightarrow> int store" where
  "two_cells c0 c1 = \<lparr>cells = (\<lambda>a. if a = 0 then Some c0 else if a = 1 then Some c1 else None), fresh = 2\<rparr>"

section \<open>Properties\<close>

subsection \<open>Auxiliary facts\<close>


lemma set_Void_fields: "set_Void s object method = \<lparr>m_object = object, m_eventReceive = method\<rparr>"
  by (simp add: set_Void_def)

lemma set_Arg_fields: "set_Arg s object method = \<lparr>m_object = object, m_eventReceive = method\<rparr>"
  by (simp add: set_Arg_def)

lemma set_RefArg_fields: "set_RefArg s object method = \<lparr>m_object = object, m_eventReceive = method\<rparr>"
  by (simp add: set_RefArg_def)

lemma set_PtrArg_fields: "set_PtrArg s object method = \<lparr>m_object = object, m_eventReceive = method\<rparr>"
  by (simp add: set_PtrArg_def)

lemmas set_fields = set_Void_fields set_Arg_fields set_RefArg_fields set_PtrArg_fields

lemma invoke_Void_slot: "fst (invoke_Void code s st) = s"
  by (simp add: invoke_Void_def split: ptr.split)

lemma invoke_Arg_slot: "fst (invoke_Arg code s v st) = s"
  by (simp add: invoke_Arg_def split: ptr.split)

lemma invoke_RefArg_slot: "fst (invoke_RefArg code s r st) = s"
  by (simp add: invoke_RefArg_def split: ptr.split)

lemma invoke_PtrArg_slot: "fst (invoke_PtrArg code s p st) = s"
  by (simp add: invoke_PtrArg_def split: ptr.split)

lemmas invoke_slot = invoke_Void_slot invoke_Arg_slot invoke_RefArg_slot invoke_PtrArg_slot

lemma invoke_Void_bound:
  "invoke_Void code \<lparr>m_object = Ptr obj, m_eventReceive = Ptr m\<rparr> st =
     (\<lparr>m_object = Ptr obj, m_eventReceive = Ptr m\<rparr>, code m obj st)"
  by (simp add: invoke_Void_def)

lemma invoke_Arg_bound:
  "invoke_Arg code \<lparr>m_object = Ptr obj, m_eventReceive = Ptr m\<rparr> v st =
     (\<lparr>m_object = Ptr obj, m_eventReceive = Ptr m\<rparr>, call_by_value (code m) obj v st)"
  by (simp add: invoke_Arg_def)

lemma invoke_RefArg_bound:
  "invoke_RefArg code \<lparr>m_object = Ptr obj, m_eventReceive = Ptr m\<rparr> r st =
     (\<lparr>m_object = Ptr obj, m_eventReceive = Ptr m\<rparr>, code m obj r st)"
  by (simp add: invoke_RefArg_def)

lemma invoke_PtrArg_bound:
  "invoke_PtrArg code \<lparr>m_object = Ptr obj, m_eventReceive = Ptr m\<rparr> p st =
     (\<lparr>m_object = Ptr obj, m_eventReceive = Ptr m\<rparr>, code m obj p st)"
  by (simp add: invoke_PtrArg_def)

lemmas invoke_bound = invoke_Void_bound invoke_Arg_bound invoke_RefArg_bound invoke_PtrArg_bound

lemma invoke_Void_unbound:
  "\<not> slot_bound s \<Longrightarrow> invoke_Void code s st = (s, Inr st)"
  by (auto simp: invoke_Void_def slot_bound_def split: ptr.split)

lemma invoke_Arg_unbound:
  "\<not> slot_bound s \<Longrightarrow> invoke_Arg code s v st = (s, Inr st)"
  by (auto simp: invoke_Arg_def slot_bound_def split: ptr.split)

lemma invoke_RefArg_unbound:
  "\<not> slot_bound s \<Longrightarrow> invoke_RefArg code s r st = (s, Inr st)"
  by (auto simp: invoke_RefArg_def slot_bound_def split: ptr.split)

lemma invoke_PtrArg_unbound:
  "\<not> slot_bound s \<Longrightarrow> invoke_PtrArg code s p st = (s, Inr st)"
  by (auto simp: invoke_PtrArg_def slot_bound_def split: ptr.split)

lemmas invoke_unbound = invoke_Void_unbound invoke_Arg_unbound invoke_RefArg_unbound invoke_PtrArg_unbound

lemma run_invokes:
  assumes "\<And>a st. invf s a st = (s, f a st)"
  shows "run setf invf (map Invoke as) s st = (s, call_all f as st)"
  using assms by (induction as arbitrary: st) (auto split: sum.splits)

lemma call_all_skip: "call_all (\<lambda>a. Inr) as st = Inr st"
  by (induction as) simp_all

lemma run_slot_inv:
  assumes setf: "\<And>s object method. setf s object method = \<lparr>m_object = object, m_eventReceive = method\<rparr>"
    and invf: "\<And>s a st. fst (invf s a st) = s"
    and P: "\<And>object method. Q (Set object method) \<Longrightarrow> P \<lparr>m_object = object, m_eventReceive = method\<rparr>"
    and "list_all Q cs" and "P s"
  shows "P (fst (run setf invf cs s st))"
  using assms(4,5)
proof (induction cs arbitrary: s st)
  case Nil then show ?case by simp
next
  case (Cons c cs)
  show ?case
  proof (cases c)
    case (Set object handler)
    with Cons show ?thesis by (simp add: setf P)
  next
    case (Invoke a)
    obtain r where r: "invf s a st = (s, r)" using invf[of s a st] by (cases "invf s a st") simp
    show ?thesis using Cons Invoke r by (cases r) simp_all
  qed
qed

lemma call_by_value_unfold:
  "call_by_value body this v st =
     (case body this (fresh st)
             (st\<lparr>cells := (cells st)(fresh st \<mapsto> v), fresh := Suc (fresh st)\<rparr>) of
        Inl e \<Rightarrow> Inl e
      | Inr st2 \<Rightarrow> Inr (release (fresh st) st2))"
  by (simp add: call_by_value_def alloc_def)

lemma assign_other: "x \<noteq> a \<Longrightarrow> cells (assign a v st) x = cells st x"
  by (simp add: assign_def)

lemma two_cells_upd0: "assign 0 v (two_cells c0 c1) = two_cells v c1"
  by (auto simp: assign_def two_cells_def)

lemma two_cells_upd1: "assign (Suc 0) v (two_cells c0 c1) = two_cells c0 v"
  by (auto simp: assign_def two_cells_def)

lemma two_cells_read: "cells (two_cells c0 c1) 0 = Some c0" "cells (two_cells c0 c1) (Suc 0) = Some c1"
  "fresh (two_cells c0 c1) = 2"
  by (simp_all add: two_cells_def)

subsection \<open>Binding and invoking\<close>

text \<open>
  Claim C1. For every slot variant, after \<^verbatim>\<open>set(obj, method)\<close> with a non-null object
  and a non-null method, an \<^verbatim>\<open>invoke\<close> leaves the slot as it is and does to the store what
  one call of that method on that object does, with the argument of the \<^verbatim>\<open>invoke\<close>; any
  number of \<^verbatim>\<open>invoke\<close> calls in a row does what as many direct calls do, in the same order.
  For the value variant the call is written out: the method runs on a new parameter object
  that holds the argument, which is released afterwards.
  In particular, a no-argument slot bound to the incrementing method of a counter that
  holds 0, invoked three times, leaves the counter at 3 (and the other object untouched);
  a value slot bound to the recording method, invoked with 5 and then 8, leaves 8 recorded
  in its object; a reference slot bound to the doubling method, invoked twice on a
  variable holding 5, leaves 20 in it; a pointer slot bound to the method that notes
  nullness, invoked with a non-null and then a null pointer, leaves 1 in its object.
\<close>

theorem bind_then_invoke_calls_bound_method:
  "invoke_Void cv (set_Void s (Ptr obj) (Ptr m)) st = (set_Void s (Ptr obj) (Ptr m), cv m obj st)
   \<and> invoke_Arg ca (set_Arg s (Ptr obj) (Ptr m)) v st
       = (set_Arg s (Ptr obj) (Ptr m),
          case ca m obj (fresh st)
                 (st\<lparr>cells := (cells st)(fresh st \<mapsto> v), fresh := Suc (fresh st)\<rparr>) of
            Inl e \<Rightarrow> Inl e
          | Inr st2 \<Rightarrow> Inr (release (fresh st) st2))
   \<and> invoke_RefArg cr (set_RefArg s (Ptr obj) (Ptr m)) r st
       = (set_RefArg s (Ptr obj) (Ptr m), cr m obj r st)
   \<and> invoke_PtrArg cp (set_PtrArg s (Ptr obj) (Ptr m)) p st
       = (set_PtrArg s (Ptr obj) (Ptr m), cp m obj p st)
   \<and> run_Void cv (map Invoke us) (set_Void s (Ptr obj) (Ptr m)) st
       = (set_Void s (Ptr obj) (Ptr m), call_all (\<lambda>u. cv m obj) us st)
   \<and> run_Arg ca (map Invoke vs) (set_Arg s (Ptr obj) (Ptr m)) st
       = (set_Arg s (Ptr obj) (Ptr m),
          call_all (\<lambda>v st.
              case ca m obj (fresh st)
                     (st\<lparr>cells := (cells st)(fresh st \<mapsto> v), fresh := Suc (fresh st)\<rparr>) of
                Inl e \<Rightarrow> Inl e
              | Inr st2 \<Rightarrow> Inr (release (fresh st) st2)) vs st)
   \<and> run_RefArg cr (map Invoke rs) (set_RefArg s (Ptr obj) (Ptr m)) st
       = (set_RefArg s (Ptr obj) (Ptr m), call_all (cr m obj) rs st)
   \<and> run_PtrArg cp (map Invoke ps) (set_PtrArg s (Ptr obj) (Ptr m)) st
       = (set_PtrArg s (Ptr obj) (Ptr m), call_all (cp m obj) ps st)
   \<and> run_Void code_Void [Invoke (), Invoke (), Invoke ()]
         (set_Void empty_slot (Ptr 0) (Ptr M_increment)) (two_cells 0 7)
       = (set_Void empty_slot (Ptr 0) (Ptr M_increment), Inr (two_cells 3 7))
   \<and> run_Arg code_Arg [Invoke 5, Invoke 8]
         (set_Arg empty_slot (Ptr 0) (Ptr M_record)) (two_cells 0 7)
       = (set_Arg empty_slot (Ptr 0) (Ptr M_record), Inr ((two_cells 8 7)\<lparr>fresh := 4\<rparr>))
   \<and> run_RefArg code_RefArg [Invoke 1, Invoke 1]
         (set_RefArg empty_slot (Ptr 0) (Ptr M_twice)) (two_cells 0 5)
       = (set_RefArg empty_slot (Ptr 0) (Ptr M_twice), Inr (two_cells 0 20))
   \<and> run_PtrArg code_PtrArg [Invoke (Ptr 1), Invoke nullptr]
         (set_PtrArg empty_slot (Ptr 0) (Ptr M_note)) (two_cells 7 5)
       = (set_PtrArg empty_slot (Ptr 0) (Ptr M_note), Inr (two_cells 1 5))"
    (is "?V1 \<and> ?A1 \<and> ?R1 \<and> ?P1 \<and> ?Vn \<and> ?An \<and> ?Rn \<and> ?Pn \<and> ?Vs \<and> ?As \<and> ?Rs \<and> ?Ps")
proof -
  have one: ?V1 ?A1 ?R1 ?P1
    by (simp_all add: set_fields invoke_bound call_by_value_unfold)
  have vn: ?Vn
    unfolding run_Void_def set_fields by (rule run_invokes) (simp add: invoke_Void_bound)
  have an: ?An
    unfolding run_Arg_def set_fields
    by (rule run_invokes) (simp add: invoke_Arg_bound call_by_value_unfold)
  have rn: ?Rn
    unfolding run_RefArg_def set_fields by (rule run_invokes) (simp add: invoke_RefArg_bound)
  have pn: ?Pn
    unfolding run_PtrArg_def set_fields by (rule run_invokes) (simp add: invoke_PtrArg_bound)
  have vs: ?Vs
    by (simp add: run_Void_def set_fields invoke_bound code_Void_def increment_def
        two_cells_read two_cells_upd0)
  have "call_by_value record_arg 0 5 (two_cells 0 7) = Inr ((two_cells 5 7)\<lparr>fresh := 3\<rparr>)"
    by (auto simp: call_by_value_def alloc_def record_arg_def release_def assign_def two_cells_def)
  moreover have "call_by_value record_arg 0 8 ((two_cells 5 7)\<lparr>fresh := 3\<rparr>)
      = Inr ((two_cells 8 7)\<lparr>fresh := 4\<rparr>)"
    by (auto simp: call_by_value_def alloc_def record_arg_def release_def assign_def two_cells_def)
  ultimately have as: ?As
    by (simp add: run_Arg_def set_fields invoke_bound code_Arg_def)
  have rs: ?Rs
    by (simp add: run_RefArg_def set_fields invoke_bound code_RefArg_def twice_def
        two_cells_read two_cells_upd1)
  have ps: ?Ps
    by (simp add: run_PtrArg_def set_fields invoke_bound code_PtrArg_def note_null_def
        two_cells_upd0)
  from one vn an rn pn vs as rs ps show ?thesis
    by (intro conjI)
qed

subsection \<open>The empty slot\<close>

text \<open>
  Claim C2. For every slot variant, \<^verbatim>\<open>invoke\<close> on a slot that was never bound calls no
  handler, raises nothing and changes nothing: the result is the same empty slot and the
  same store, for one \<^verbatim>\<open>invoke\<close> and for any number of them in a row.
\<close>

theorem invoke_empty_slot_is_noop:
  "invoke_Void cv empty_slot st = (empty_slot, Inr st)
   \<and> invoke_Arg ca empty_slot v st = (empty_slot, Inr st)
   \<and> invoke_RefArg cr empty_slot r st = (empty_slot, Inr st)
   \<and> invoke_PtrArg cp empty_slot p st = (empty_slot, Inr st)
   \<and> run_Void cv (map Invoke us) empty_slot st = (empty_slot, Inr st)
   \<and> run_Arg ca (map Invoke vs) empty_slot st = (empty_slot, Inr st)
   \<and> run_RefArg cr (map Invoke rs) empty_slot st = (empty_slot, Inr st)
   \<and> run_PtrArg cp (map Invoke ps) empty_slot st = (empty_slot, Inr st)"
proof -
  have e: "\<not> slot_bound empty_slot"
    by (simp add: slot_bound_def empty_slot_def)
  have "run_Void cv (map Invoke us) empty_slot st = (empty_slot, call_all (\<lambda>u. Inr) us st)"
    unfolding run_Void_def by (rule run_invokes) (simp add: invoke_Void_unbound [OF e])
  moreover have "run_Arg ca (map Invoke vs) empty_slot st = (empty_slot, call_all (\<lambda>v. Inr) vs st)"
    unfolding run_Arg_def by (rule run_invokes) (simp add: invoke_Arg_unbound [OF e])
  moreover have "run_RefArg cr (map Invoke rs) empty_slot st = (empty_slot, call_all (\<lambda>r. Inr) rs st)"
    unfolding run_RefArg_def by (rule run_invokes) (simp add: invoke_RefArg_unbound [OF e])
  moreover have "run_PtrArg cp (map Invoke ps) empty_slot st = (empty_slot, call_all (\<lambda>p. Inr) ps st)"
    unfolding run_PtrArg_def by (rule run_invokes) (simp add: invoke_PtrArg_unbound [OF e])
  ultimately show ?thesis
    by (simp add: invoke_unbound [OF e] call_all_skip)
qed

subsection \<open>The pairing of the two fields\<close>

text \<open>
  Claim C3, as stated, fails. The claim: in every slot state reachable by \<^verbatim>\<open>set\<close> and
  \<^verbatim>\<open>invoke\<close> calls with arbitrary pointer arguments to \<^verbatim>\<open>set\<close>, the two fields are both
  null or both non-null. \<^verbatim>\<open>set\<close> stores what it is given: after \<^verbatim>\<open>set(&obj, nullptr)\<close> on a
  new slot the object field is set and the handler field is null, in each of the four
  variants.
\<close>

theorem set_with_one_null_unpairs_fields:
  "\<not> both_or_neither (fst (run_Void code_Void [Set (Ptr 0) nullptr] empty_slot (two_cells 0 0)))
   \<and> \<not> both_or_neither (fst (run_Arg code_Arg [Set (Ptr 0) nullptr] empty_slot (two_cells 0 0)))
   \<and> \<not> both_or_neither (fst (run_RefArg code_RefArg [Set (Ptr 0) nullptr] empty_slot (two_cells 0 0)))
   \<and> \<not> both_or_neither (fst (run_PtrArg code_PtrArg [Set (Ptr 0) nullptr] empty_slot (two_cells 0 0)))"
  by (simp add: run_Void_def run_Arg_def run_RefArg_def run_PtrArg_def set_fields
      both_or_neither_def)

text \<open>
  Claim C3, amended. For every slot variant, in every slot state reached from a new slot by
  a sequence of \<^verbatim>\<open>invoke\<close> calls and of \<^verbatim>\<open>set\<close> calls whose two arguments are either both
  null or both non-null, the two fields are either both null or both non-null.
\<close>

theorem fields_paired_when_set_args_paired:
  assumes "list_all set_args_paired csV" and "list_all set_args_paired csA"
    and "list_all set_args_paired csR" and "list_all set_args_paired csP"
  shows "both_or_neither (fst (run_Void cv csV empty_slot st))
     \<and> both_or_neither (fst (run_Arg ca csA empty_slot st))
     \<and> both_or_neither (fst (run_RefArg cr csR empty_slot st))
     \<and> both_or_neither (fst (run_PtrArg cp csP empty_slot st))"
proof -
  have init: "both_or_neither empty_slot"
    by (simp add: both_or_neither_def empty_slot_def)
  have step: "both_or_neither \<lparr>m_object = object, m_eventReceive = handler\<rparr>"
    if "set_args_paired (Set object handler)" for object and handler :: "'x ptr"
    using that by (simp add: both_or_neither_def)
  have "both_or_neither (fst (run_Void cv csV empty_slot st))"
    unfolding run_Void_def
    using set_Void_fields invoke_Void_slot step assms(1) init by (rule run_slot_inv)
  moreover have "both_or_neither (fst (run_Arg ca csA empty_slot st))"
    unfolding run_Arg_def
    using set_Arg_fields invoke_Arg_slot step assms(2) init by (rule run_slot_inv)
  moreover have "both_or_neither (fst (run_RefArg cr csR empty_slot st))"
    unfolding run_RefArg_def
    using set_RefArg_fields invoke_RefArg_slot step assms(3) init by (rule run_slot_inv)
  moreover have "both_or_neither (fst (run_PtrArg cp csP empty_slot st))"
    unfolding run_PtrArg_def
    using set_PtrArg_fields invoke_PtrArg_slot step assms(4) init by (rule run_slot_inv)
  ultimately show ?thesis
    by simp
qed

text \<open>The amended claim C3 at concrete sequences of calls, one for each variant.\<close>

theorem fields_paired_when_set_args_paired_witness:
  "list_all set_args_paired [Set (Ptr 0) (Ptr M_increment), Invoke (), Set nullptr nullptr]
   \<and> list_all set_args_paired [Set (Ptr 0) (Ptr M_record), Invoke (5::int)]
   \<and> list_all set_args_paired [Set (Ptr 0) (Ptr M_twice), Invoke (1::nat)]
   \<and> list_all set_args_paired [Set (Ptr 0) (Ptr M_note), Invoke (nullptr :: addr ptr)]
   \<and> both_or_neither (fst (run_Void code_Void
         [Set (Ptr 0) (Ptr M_increment), Invoke (), Set nullptr nullptr] empty_slot (two_cells 0 5)))
   \<and> both_or_neither (fst (run_Arg code_Arg
         [Set (Ptr 0) (Ptr M_record), Invoke 5] empty_slot (two_cells 0 5)))
   \<and> both_or_neither (fst (run_RefArg code_RefArg
         [Set (Ptr 0) (Ptr M_twice), Invoke 1] empty_slot (two_cells 0 5)))
   \<and> both_or_neither (fst (run_PtrArg code_PtrArg
         [Set (Ptr 0) (Ptr M_note), Invoke nullptr] empty_slot (two_cells 0 5)))"
proof -
  have h: "list_all set_args_paired [Set (Ptr 0) (Ptr M_increment), Invoke (), Set nullptr nullptr]"
    "list_all set_args_paired [Set (Ptr 0) (Ptr M_record), Invoke (5::int)]"
    "list_all set_args_paired [Set (Ptr 0) (Ptr M_twice), Invoke (1::nat)]"
    "list_all set_args_paired [Set (Ptr 0) (Ptr M_note), Invoke (nullptr :: addr ptr)]"
    by simp_all
  from h fields_paired_when_set_args_paired [OF h, of code_Void "two_cells 0 5" code_Arg code_RefArg code_PtrArg]
  show ?thesis
    by blast
qed

subsection \<open>Rebinding\<close>

text \<open>
  Claim C4. For every slot variant, a second \<^verbatim>\<open>set\<close> replaces the binding of the first
  entirely: after \<^verbatim>\<open>set(object1, handler1)\<close> and then \<^verbatim>\<open>set(obj2, m2)\<close> with non-null
  \<open>obj2\<close> and \<open>m2\<close>, an \<^verbatim>\<open>invoke\<close>, and any number of them in a row, does what direct
  calls of \<open>m2\<close> on \<open>obj2\<close> do; the result does not depend on \<open>object1\<close>, on \<open>handler1\<close>
  or on the body of \<open>handler1\<close>. For the value variant the call is written out: \<open>m2\<close>
  runs on \<open>obj2\<close> with a new parameter object that holds the argument.
  In particular, a slot bound to the clearing method of
  one counter and then to the incrementing method of another, invoked once, increments the
  second counter and leaves the first as it was; a value slot bound to the doubling method
  of one object and then to the recording method of another, invoked with 9, records 9 in
  the second object and leaves the first as it was; a pointer slot rebound from one object
  to another, invoked with a null pointer, notes it in the second object only.
\<close>

theorem rebind_replaces_binding:
  "invoke_Void cv (set_Void (set_Void s object1 handler1) (Ptr obj2) (Ptr m2)) st
       = (set_Void s (Ptr obj2) (Ptr m2), cv m2 obj2 st)
   \<and> invoke_Arg ca (set_Arg (set_Arg s object1 handler1) (Ptr obj2) (Ptr m2)) v st
       = (set_Arg s (Ptr obj2) (Ptr m2),
          case ca m2 obj2 (fresh st)
                 (st\<lparr>cells := (cells st)(fresh st \<mapsto> v), fresh := Suc (fresh st)\<rparr>) of
            Inl e \<Rightarrow> Inl e
          | Inr st2 \<Rightarrow> Inr (release (fresh st) st2))
   \<and> invoke_RefArg cr (set_RefArg (set_RefArg s object1 handler1) (Ptr obj2) (Ptr m2)) r st
       = (set_RefArg s (Ptr obj2) (Ptr m2), cr m2 obj2 r st)
   \<and> invoke_PtrArg cp (set_PtrArg (set_PtrArg s object1 handler1) (Ptr obj2) (Ptr m2)) p st
       = (set_PtrArg s (Ptr obj2) (Ptr m2), cp m2 obj2 p st)
   \<and> run_Void cv (map Invoke us) (set_Void (set_Void s object1 handler1) (Ptr obj2) (Ptr m2)) st
       = (set_Void s (Ptr obj2) (Ptr m2), call_all (\<lambda>u. cv m2 obj2) us st)
   \<and> run_Arg ca (map Invoke vs) (set_Arg (set_Arg s object1 handler1) (Ptr obj2) (Ptr m2)) st
       = (set_Arg s (Ptr obj2) (Ptr m2),
          call_all (\<lambda>v st.
              case ca m2 obj2 (fresh st)
                     (st\<lparr>cells := (cells st)(fresh st \<mapsto> v), fresh := Suc (fresh st)\<rparr>) of
                Inl e \<Rightarrow> Inl e
              | Inr st2 \<Rightarrow> Inr (release (fresh st) st2)) vs st)
   \<and> run_RefArg cr (map Invoke rs) (set_RefArg (set_RefArg s object1 handler1) (Ptr obj2) (Ptr m2)) st
       = (set_RefArg s (Ptr obj2) (Ptr m2), call_all (cr m2 obj2) rs st)
   \<and> run_PtrArg cp (map Invoke ps) (set_PtrArg (set_PtrArg s object1 handler1) (Ptr obj2) (Ptr m2)) st
       = (set_PtrArg s (Ptr obj2) (Ptr m2), call_all (cp m2 obj2) ps st)
   \<and> run_Void code_Void [Set (Ptr 0) (Ptr M_clear), Set (Ptr 1) (Ptr M_increment), Invoke ()]
         empty_slot (two_cells 5 5)
       = (set_Void empty_slot (Ptr 1) (Ptr M_increment), Inr (two_cells 5 6))
   \<and> run_Arg code_Arg [Set (Ptr 0) (Ptr M_twice), Set (Ptr 1) (Ptr M_record), Invoke 9]
         empty_slot (two_cells 5 5)
       = (set_Arg empty_slot (Ptr 1) (Ptr M_record), Inr ((two_cells 5 9)\<lparr>fresh := 3\<rparr>))
   \<and> run_PtrArg code_PtrArg [Set (Ptr 0) (Ptr M_note), Set (Ptr 1) (Ptr M_note), Invoke nullptr]
         empty_slot (two_cells 7 7)
       = (set_PtrArg empty_slot (Ptr 1) (Ptr M_note), Inr (two_cells 7 1))"
    (is "?V1 \<and> ?A1 \<and> ?R1 \<and> ?P1 \<and> ?Vn \<and> ?An \<and> ?Rn \<and> ?Pn \<and> ?Vs \<and> ?As \<and> ?Ps")
proof -
  have one: ?V1 ?A1 ?R1 ?P1
    by (simp_all add: set_fields invoke_bound call_by_value_unfold)
  have vn: ?Vn
    unfolding run_Void_def set_fields by (rule run_invokes) (simp add: invoke_Void_bound)
  have an: ?An
    unfolding run_Arg_def set_fields
    by (rule run_invokes) (simp add: invoke_Arg_bound call_by_value_unfold)
  have rn: ?Rn
    unfolding run_RefArg_def set_fields by (rule run_invokes) (simp add: invoke_RefArg_bound)
  have pn: ?Pn
    unfolding run_PtrArg_def set_fields by (rule run_invokes) (simp add: invoke_PtrArg_bound)
  have vs: ?Vs
    by (simp add: run_Void_def set_fields invoke_bound code_Void_def increment_def
        two_cells_read two_cells_upd1)
  have "call_by_value record_arg (Suc 0) 9 (two_cells 5 5) = Inr ((two_cells 5 9)\<lparr>fresh := 3\<rparr>)"
    by (auto simp: call_by_value_def alloc_def record_arg_def release_def assign_def two_cells_def)
  then have as: ?As
    by (simp add: run_Arg_def set_fields invoke_bound code_Arg_def)
  have ps: ?Ps
    by (simp add: run_PtrArg_def set_fields invoke_bound code_PtrArg_def note_null_def
        two_cells_upd1)
  from one vn an rn pn vs as ps show ?thesis
    by (intro conjI)
qed

subsection \<open>The three ways of passing the argument\<close>

text \<open>
  Claim C5. For the value-argument variant with a bound handler, \<^verbatim>\<open>invoke(value)\<close> runs
  the handler on a new object that holds a copy of the argument, at an address that is not
  the address \<open>a\<close> of the caller's variable. Hence a handler that writes only to its
  parameter and to a set \<open>F\<close> of cells that does not contain the caller's variable leaves
  that variable as it was, and its parameter is gone when \<^verbatim>\<open>invoke\<close> returns; a later
  assignment to the caller's variable changes no other cell, so nothing the handler recorded.
  In particular, the method that doubles its parameter, bound by value, leaves the caller's
  5 at 5; and the method that records its parameter records 5, and still holds 5 after the
  caller's variable is set to 99.
\<close>

theorem value_argument_is_copied:
  assumes var: "a < fresh st" "cells st a = Some v"
    and foot: "a \<notin> F"
    and conf: "\<forall>p st0 st1 x. ca m obj p st0 = Inr st1 \<and> x \<noteq> p \<and> x \<notin> F
                 \<longrightarrow> cells st1 x = cells st0 x"
  shows "invoke_Arg ca (set_Arg s (Ptr obj) (Ptr m)) v st
       = (set_Arg s (Ptr obj) (Ptr m),
          case ca m obj (fresh st)
                 (st\<lparr>cells := (cells st)(fresh st \<mapsto> v), fresh := Suc (fresh st)\<rparr>) of
            Inl e \<Rightarrow> Inl e
          | Inr st2 \<Rightarrow> Inr (release (fresh st) st2))
   \<and> fresh st \<noteq> a
   \<and> (\<forall>st'. snd (invoke_Arg ca (set_Arg s (Ptr obj) (Ptr m)) v st) = Inr st'
          \<longrightarrow> cells st' a = Some v \<and> cells st' (fresh st) = None
              \<and> (\<forall>v' x. x \<noteq> a \<longrightarrow> cells (assign a v' st') x = cells st' x))
   \<and> invoke_Arg code_Arg (set_Arg empty_slot (Ptr 0) (Ptr M_twice)) 5 (two_cells 0 5)
       = (set_Arg empty_slot (Ptr 0) (Ptr M_twice), Inr ((two_cells 0 5)\<lparr>fresh := 3\<rparr>))
   \<and> invoke_Arg code_Arg (set_Arg empty_slot (Ptr 0) (Ptr M_record)) 5 (two_cells 0 5)
       = (set_Arg empty_slot (Ptr 0) (Ptr M_record), Inr ((two_cells 5 5)\<lparr>fresh := 3\<rparr>))
   \<and> cells (assign 1 99 ((two_cells 5 5)\<lparr>fresh := 3\<rparr>)) 0 = Some 5"
    (is "?copy \<and> ?fresh \<and> ?kept \<and> ?twice \<and> ?recd \<and> ?later")
proof -
  let ?p = "fresh st"
  let ?st1 = "st\<lparr>cells := (cells st)(?p \<mapsto> v), fresh := Suc ?p\<rparr>"
  have neq: "a \<noteq> ?p"
    using var(1) by simp
  have call: "call_by_value (ca m) obj v st
      = (case ca m obj ?p ?st1 of Inl e \<Rightarrow> Inl e | Inr st2 \<Rightarrow> Inr (release ?p st2))"
    by (simp add: call_by_value_def alloc_def)
  have inv: "invoke_Arg ca (set_Arg s (Ptr obj) (Ptr m)) v st
      = (set_Arg s (Ptr obj) (Ptr m), call_by_value (ca m) obj v st)"
    by (simp add: set_Arg_fields invoke_Arg_bound)
  have copy: ?copy
    by (simp only: inv call)
  have fresh: ?fresh
    using neq by simp
  have kept: ?kept
  proof (intro allI impI)
    fix st'
    assume "snd (invoke_Arg ca (set_Arg s (Ptr obj) (Ptr m)) v st) = Inr st'"
    then have ret: "call_by_value (ca m) obj v st = Inr st'"
      by (simp add: inv)
    have "cells st' a = Some v \<and> cells st' ?p = None"
    proof (cases "ca m obj ?p ?st1")
      case (Inl e)
      with ret call show ?thesis by simp
    next
      case (Inr st2)
      with ret call have st': "st' = release ?p st2" by simp
      have "cells st2 a = cells ?st1 a"
        using conf Inr neq foot by blast
      with neq var(2) show ?thesis
        by (simp add: st' release_def)
    qed
    then show "cells st' a = Some v \<and> cells st' ?p = None
        \<and> (\<forall>v' x. x \<noteq> a \<longrightarrow> cells (assign a v' st') x = cells st' x)"
      by (simp add: assign_other)
  qed
  have "call_by_value twice 0 5 (two_cells 0 5) = Inr ((two_cells 0 5)\<lparr>fresh := 3\<rparr>)"
    by (auto simp: call_by_value_def alloc_def twice_def release_def assign_def two_cells_def)
  then have twice: ?twice
    by (simp add: set_Arg_fields invoke_Arg_bound code_Arg_def)
  have "call_by_value record_arg 0 5 (two_cells 0 5) = Inr ((two_cells 5 5)\<lparr>fresh := 3\<rparr>)"
    by (auto simp: call_by_value_def alloc_def record_arg_def release_def assign_def two_cells_def)
  then have recd: ?recd
    by (simp add: set_Arg_fields invoke_Arg_bound code_Arg_def)
  have later: ?later
    by (simp add: assign_def two_cells_def)
  from copy fresh kept twice recd later show ?thesis
    by (intro conjI)
qed

text \<open>
  Claim C5 at a concrete input: the doubling method, which writes only to its parameter,
  invoked by value with the caller's variable (address 1, holding 5).
\<close>

theorem value_argument_is_copied_witness:
  "(1::nat) < fresh (two_cells 0 5)
   \<and> cells (two_cells 0 5) 1 = Some 5
   \<and> snd (invoke_Arg code_Arg (set_Arg empty_slot (Ptr 0) (Ptr M_twice)) 5 (two_cells 0 5))
       = Inr ((two_cells 0 5)\<lparr>fresh := 3\<rparr>)
   \<and> cells ((two_cells 0 5)\<lparr>fresh := 3\<rparr>) 1 = Some 5"
proof -
  have var: "(1::nat) < fresh (two_cells 0 5)" "cells (two_cells 0 5) 1 = Some 5"
    by (simp_all add: two_cells_def)
  have foot: "(1::nat) \<notin> {}"
    by simp
  have conf: "\<forall>p st0 st1 x. code_Arg M_twice 0 p st0 = Inr st1 \<and> x \<noteq> p \<and> x \<notin> {}
                 \<longrightarrow> cells st1 x = cells st0 x"
    by (auto simp: code_Arg_def twice_def assign_def split: option.splits)
  note inst = value_argument_is_copied [of 1 "two_cells 0 5" 5 "{}" code_Arg M_twice 0 empty_slot,
      OF var foot conf]
  note kept = inst [THEN conjunct2, THEN conjunct2, THEN conjunct1, rule_format]
  have ret: "snd (invoke_Arg code_Arg (set_Arg empty_slot (Ptr 0) (Ptr M_twice)) 5
      (two_cells 0 5)) = Inr ((two_cells 0 5)\<lparr>fresh := 3\<rparr>)"
    using inst [THEN conjunct2, THEN conjunct2, THEN conjunct2, THEN conjunct1] by simp
  have "cells ((two_cells 0 5)\<lparr>fresh := 3\<rparr>) 1 = Some 5"
    using kept [OF ret] by (rule conjunct1)
  with var ret show ?thesis
    by (intro conjI)
qed

text \<open>
  Claim C6. For the reference-argument variant with a bound handler, \<^verbatim>\<open>invoke(valueRef)\<close>
  hands the address of the caller's storage itself to the handler, and the store after
  \<^verbatim>\<open>invoke\<close> is the store the handler left, so every change the handler made to that storage
  is there. In particular, with the handler that doubles its argument in place, a caller's
  variable holding 5 holds 10 after \<^verbatim>\<open>invoke\<close>.
\<close>

theorem reference_argument_is_callers_storage:
  "invoke_RefArg cr (set_RefArg s (Ptr obj) (Ptr m)) r st
       = (set_RefArg s (Ptr obj) (Ptr m), cr m obj r st)
   \<and> invoke_RefArg code_RefArg (set_RefArg empty_slot (Ptr 0) (Ptr M_twice)) 1 (two_cells 0 5)
       = (set_RefArg empty_slot (Ptr 0) (Ptr M_twice), Inr (two_cells 0 10))"
  by (simp add: set_fields invoke_bound code_RefArg_def twice_def two_cells_read two_cells_upd1)

text \<open>
  Claim C7. For the pointer-argument variant with a bound handler, \<^verbatim>\<open>invoke(valuePtr)\<close>
  hands the pointer to the handler as it is, a null pointer included: the slot does not
  test it, replace it or read the store through it. In particular, a handler that notes
  whether its argument is null notes 1 for \<^verbatim>\<open>invoke(nullptr)\<close> and 0 for a non-null pointer.
\<close>

theorem pointer_argument_passed_unchanged:
  "invoke_PtrArg cp (set_PtrArg s (Ptr obj) (Ptr m)) p st
       = (set_PtrArg s (Ptr obj) (Ptr m), cp m obj p st)
   \<and> invoke_PtrArg cp (set_PtrArg s (Ptr obj) (Ptr m)) nullptr st
       = (set_PtrArg s (Ptr obj) (Ptr m), cp m obj nullptr st)
   \<and> invoke_PtrArg code_PtrArg (set_PtrArg empty_slot (Ptr 0) (Ptr M_note)) nullptr (two_cells 7 5)
       = (set_PtrArg empty_slot (Ptr 0) (Ptr M_note), Inr (two_cells 1 5))
   \<and> invoke_PtrArg code_PtrArg (set_PtrArg empty_slot (Ptr 0) (Ptr M_note)) (Ptr 1) (two_cells 7 5)
       = (set_PtrArg empty_slot (Ptr 0) (Ptr M_note), Inr (two_cells 0 5))"
  by (simp add: set_fields invoke_bound code_PtrArg_def note_null_def two_cells_upd0)

subsection \<open>What \<^verbatim>\<open>invoke\<close> leaves in the slot\<close>

text \<open>
  Claim C8. For every slot variant and every slot state, the slot after \<^verbatim>\<open>invoke\<close> is the
  slot before it, whatever the handler did and whether or not an exception left it; the
  same holds after any number of \<^verbatim>\<open>invoke\<close> calls in a row.
\<close>

theorem invoke_keeps_binding:
  "fst (invoke_Void cv s st) = s
   \<and> fst (invoke_Arg ca s v st) = s
   \<and> fst (invoke_RefArg cr s r st) = s
   \<and> fst (invoke_PtrArg cp s p st) = s
   \<and> fst (run_Void cv (map Invoke us) s st) = s
   \<and> fst (run_Arg ca (map Invoke vs) s st) = s
   \<and> fst (run_RefArg cr (map Invoke rs) s st) = s
   \<and> fst (run_PtrArg cp (map Invoke ps) s st) = s"
proof -
  have "run_Void cv (map Invoke us) s st
      = (s, call_all (\<lambda>u st. snd (invoke_Void cv s st)) us st)"
    unfolding run_Void_def by (rule run_invokes) (simp add: prod_eq_iff invoke_Void_slot)
  moreover have "run_Arg ca (map Invoke vs) s st
      = (s, call_all (\<lambda>v st. snd (invoke_Arg ca s v st)) vs st)"
    unfolding run_Arg_def by (rule run_invokes) (simp add: prod_eq_iff invoke_Arg_slot)
  moreover have "run_RefArg cr (map Invoke rs) s st
      = (s, call_all (\<lambda>r st. snd (invoke_RefArg cr s r st)) rs st)"
    unfolding run_RefArg_def by (rule run_invokes) (simp add: prod_eq_iff invoke_RefArg_slot)
  moreover have "run_PtrArg cp (map Invoke ps) s st
      = (s, call_all (\<lambda>p st. snd (invoke_PtrArg cp s p st)) ps st)"
    unfolding run_PtrArg_def by (rule run_invokes) (simp add: prod_eq_iff invoke_PtrArg_slot)
  ultimately show ?thesis
    by (simp add: invoke_slot)
qed

subsection \<open>The states of a slot\<close>

text \<open>
  Claim C9, as stated, fails. The claim: no sequence of \<^verbatim>\<open>set\<close> or \<^verbatim>\<open>invoke\<close> calls takes a
  bound slot back to the empty state. \<^verbatim>\<open>set\<close> checks nothing, so \<^verbatim>\<open>set(nullptr, nullptr)\<close>
  on a bound slot leaves it empty, in each of the four variants.
\<close>

theorem set_null_unbinds:
  "slot_bound (set_Void empty_slot (Ptr 0) (Ptr M_increment))
   \<and> slot_empty (fst (run_Void code_Void [Set nullptr nullptr]
         (set_Void empty_slot (Ptr 0) (Ptr M_increment)) (two_cells 0 0)))
   \<and> slot_bound (set_Arg empty_slot (Ptr 0) (Ptr M_record))
   \<and> slot_empty (fst (run_Arg code_Arg [Set nullptr nullptr]
         (set_Arg empty_slot (Ptr 0) (Ptr M_record)) (two_cells 0 0)))
   \<and> slot_bound (set_RefArg empty_slot (Ptr 0) (Ptr M_twice))
   \<and> slot_empty (fst (run_RefArg code_RefArg [Set nullptr nullptr]
         (set_RefArg empty_slot (Ptr 0) (Ptr M_twice)) (two_cells 0 0)))
   \<and> slot_bound (set_PtrArg empty_slot (Ptr 0) (Ptr M_note))
   \<and> slot_empty (fst (run_PtrArg code_PtrArg [Set nullptr nullptr]
         (set_PtrArg empty_slot (Ptr 0) (Ptr M_note)) (two_cells 0 0)))"
  by (simp add: run_Void_def run_Arg_def run_RefArg_def run_PtrArg_def set_fields
      slot_bound_def slot_empty_def)

text \<open>
  Claim C9, amended. For every slot variant, under sequences of \<^verbatim>\<open>invoke\<close> calls and of
  \<^verbatim>\<open>set\<close> calls whose two arguments are both non-null: a new slot is empty; every state
  reached from a new slot is either empty or bound; and a bound slot stays bound.
\<close>

theorem bound_stays_bound_under_non_null_sets:
  assumes "list_all set_args_non_null csV" and "list_all set_args_non_null csA"
    and "list_all set_args_non_null csR" and "list_all set_args_non_null csP"
  shows "slot_empty (empty_slot :: 'm EventCallback)
     \<and> (slot_empty (fst (run_Void cv csV (empty_slot :: 'm EventCallback) st))
          \<or> slot_bound (fst (run_Void cv csV empty_slot st)))
     \<and> (slot_empty (fst (run_Arg ca csA (empty_slot :: 'm EventCallback) st))
          \<or> slot_bound (fst (run_Arg ca csA empty_slot st)))
     \<and> (slot_empty (fst (run_RefArg cr csR (empty_slot :: 'm EventCallback) st))
          \<or> slot_bound (fst (run_RefArg cr csR empty_slot st)))
     \<and> (slot_empty (fst (run_PtrArg cp csP (empty_slot :: 'm EventCallback) st))
          \<or> slot_bound (fst (run_PtrArg cp csP empty_slot st)))
     \<and> (slot_bound s \<longrightarrow> slot_bound (fst (run_Void cv csV s st)))
     \<and> (slot_bound s \<longrightarrow> slot_bound (fst (run_Arg ca csA s st)))
     \<and> (slot_bound s \<longrightarrow> slot_bound (fst (run_RefArg cr csR s st)))
     \<and> (slot_bound s \<longrightarrow> slot_bound (fst (run_PtrArg cp csP s st)))"
proof -
  let ?two = "\<lambda>s :: 'm EventCallback. slot_empty s \<or> slot_bound s"
  have init: "slot_empty (empty_slot :: 'm EventCallback)"
    by (simp add: slot_empty_def empty_slot_def)
  then have init2: "?two empty_slot" ..
  have step: "slot_bound \<lparr>m_object = object, m_eventReceive = handler\<rparr>"
    if "set_args_non_null (Set object handler)" for object and handler :: "'m ptr"
    using that by (simp add: slot_bound_def)
  then have step2: "?two \<lparr>m_object = object, m_eventReceive = handler\<rparr>"
    if "set_args_non_null (Set object handler)" for object and handler :: "'m ptr"
    using that by simp
  have "?two (fst (run_Void cv csV empty_slot st))"
    unfolding run_Void_def
    using set_Void_fields invoke_Void_slot step2 assms(1) init2 by (rule run_slot_inv)
  moreover have "?two (fst (run_Arg ca csA empty_slot st))"
    unfolding run_Arg_def
    using set_Arg_fields invoke_Arg_slot step2 assms(2) init2 by (rule run_slot_inv)
  moreover have "?two (fst (run_RefArg cr csR empty_slot st))"
    unfolding run_RefArg_def
    using set_RefArg_fields invoke_RefArg_slot step2 assms(3) init2 by (rule run_slot_inv)
  moreover have "?two (fst (run_PtrArg cp csP empty_slot st))"
    unfolding run_PtrArg_def
    using set_PtrArg_fields invoke_PtrArg_slot step2 assms(4) init2 by (rule run_slot_inv)
  moreover have "slot_bound (fst (run_Void cv csV s st))" if "slot_bound s"
    unfolding run_Void_def
    using set_Void_fields invoke_Void_slot step assms(1) that by (rule run_slot_inv)
  moreover have "slot_bound (fst (run_Arg ca csA s st))" if "slot_bound s"
    unfolding run_Arg_def
    using set_Arg_fields invoke_Arg_slot step assms(2) that by (rule run_slot_inv)
  moreover have "slot_bound (fst (run_RefArg cr csR s st))" if "slot_bound s"
    unfolding run_RefArg_def
    using set_RefArg_fields invoke_RefArg_slot step assms(3) that by (rule run_slot_inv)
  moreover have "slot_bound (fst (run_PtrArg cp csP s st))" if "slot_bound s"
    unfolding run_PtrArg_def
    using set_PtrArg_fields invoke_PtrArg_slot step assms(4) that by (rule run_slot_inv)
  ultimately show ?thesis
    using init by blast
qed

text \<open>The amended claim C9 at concrete sequences of calls on a bound slot.\<close>

theorem bound_stays_bound_under_non_null_sets_witness:
  "list_all set_args_non_null [Set (Ptr 1) (Ptr M_clear), Invoke (), Set (Ptr 0) (Ptr M_increment)]
   \<and> list_all set_args_non_null [Invoke (5::int), Set (Ptr 0) (Ptr M_record)]
   \<and> list_all set_args_non_null [Invoke (1::nat), Set (Ptr 0) (Ptr M_twice)]
   \<and> list_all set_args_non_null [Invoke (nullptr :: addr ptr), Set (Ptr 0) (Ptr M_note)]
   \<and> slot_bound \<lparr>m_object = Ptr 0, m_eventReceive = Ptr M_increment\<rparr>
   \<and> slot_bound (fst (run_Void code_Void
         [Set (Ptr 1) (Ptr M_clear), Invoke (), Set (Ptr 0) (Ptr M_increment)]
         \<lparr>m_object = Ptr 0, m_eventReceive = Ptr M_increment\<rparr> (two_cells 0 5)))
   \<and> slot_bound (fst (run_Arg code_Arg [Invoke 5, Set (Ptr 0) (Ptr M_record)]
         \<lparr>m_object = Ptr 0, m_eventReceive = Ptr M_increment\<rparr> (two_cells 0 5)))
   \<and> slot_bound (fst (run_RefArg code_RefArg [Invoke 1, Set (Ptr 0) (Ptr M_twice)]
         \<lparr>m_object = Ptr 0, m_eventReceive = Ptr M_increment\<rparr> (two_cells 0 5)))
   \<and> slot_bound (fst (run_PtrArg code_PtrArg [Invoke nullptr, Set (Ptr 0) (Ptr M_note)]
         \<lparr>m_object = Ptr 0, m_eventReceive = Ptr M_increment\<rparr> (two_cells 0 5)))"
proof -
  have h: "list_all set_args_non_null [Set (Ptr 1) (Ptr M_clear), Invoke (), Set (Ptr 0) (Ptr M_increment)]"
    "list_all set_args_non_null [Invoke (5::int), Set (Ptr 0) (Ptr M_record)]"
    "list_all set_args_non_null [Invoke (1::nat), Set (Ptr 0) (Ptr M_twice)]"
    "list_all set_args_non_null [Invoke (nullptr :: addr ptr), Set (Ptr 0) (Ptr M_note)]"
    by simp_all
  have b: "slot_bound \<lparr>m_object = Ptr 0, m_eventReceive = Ptr M_increment\<rparr>"
    by (simp add: slot_bound_def)
  from h b bound_stays_bound_under_non_null_sets [OF h, of code_Void "two_cells 0 5" code_Arg code_RefArg code_PtrArg
      "\<lparr>m_object = Ptr 0, m_eventReceive = Ptr M_increment\<rparr>"]
  show ?thesis
    by blast
qed

subsection \<open>\<^verbatim>\<open>set\<close> with a null pointer\<close>

text \<open>
  Claim C10. For every slot variant, \<^verbatim>\<open>set\<close> with a null object or a null method stores
  both arguments as given, and an \<^verbatim>\<open>invoke\<close> after it calls no handler: it returns the same
  slot and the same store, since \<^verbatim>\<open>invoke\<close> tests the stored object and the stored method.
\<close>

theorem set_null_accepted_invoke_noop:
  assumes "\<not> non_null object \<or> \<not> non_null handler"
  shows "m_object (set_Void s object handler) = object
     \<and> m_eventReceive (set_Void s object handler) = handler
     \<and> invoke_Void cv (set_Void s object handler) st = (set_Void s object handler, Inr st)
     \<and> m_object (set_Arg s object handler) = object
     \<and> m_eventReceive (set_Arg s object handler) = handler
     \<and> invoke_Arg ca (set_Arg s object handler) v st = (set_Arg s object handler, Inr st)
     \<and> m_object (set_RefArg s object handler) = object
     \<and> m_eventReceive (set_RefArg s object handler) = handler
     \<and> invoke_RefArg cr (set_RefArg s object handler) r st = (set_RefArg s object handler, Inr st)
     \<and> m_object (set_PtrArg s object handler) = object
     \<and> m_eventReceive (set_PtrArg s object handler) = handler
     \<and> invoke_PtrArg cp (set_PtrArg s object handler) p st = (set_PtrArg s object handler, Inr st)"
proof -
  from assms have "\<not> slot_bound \<lparr>m_object = object, m_eventReceive = handler\<rparr>"
    by (simp add: slot_bound_def)
  then show ?thesis
    by (simp add: set_fields invoke_unbound)
qed

text \<open>Claim C10 at a concrete input: a non-null object with a null method.\<close>

theorem set_null_accepted_invoke_noop_witness:
  "\<not> non_null (nullptr :: member ptr)
   \<and> m_object (set_Void empty_slot (Ptr 0) (nullptr :: member ptr)) = Ptr 0
   \<and> m_eventReceive (set_Void empty_slot (Ptr 0) (nullptr :: member ptr)) = nullptr
   \<and> invoke_Void code_Void (set_Void empty_slot (Ptr 0) nullptr) (two_cells 0 7)
        = (set_Void empty_slot (Ptr 0) nullptr, Inr (two_cells 0 7))
   \<and> invoke_Arg code_Arg (set_Arg empty_slot (Ptr 0) nullptr) 5 (two_cells 0 7)
        = (set_Arg empty_slot (Ptr 0) nullptr, Inr (two_cells 0 7))
   \<and> invoke_RefArg code_RefArg (set_RefArg empty_slot (Ptr 0) nullptr) 1 (two_cells 0 7)
        = (set_RefArg empty_slot (Ptr 0) nullptr, Inr (two_cells 0 7))
   \<and> invoke_PtrArg code_PtrArg (set_PtrArg empty_slot (Ptr 0) nullptr) (Ptr 1) (two_cells 0 7)
        = (set_PtrArg empty_slot (Ptr 0) nullptr, Inr (two_cells 0 7))"
proof -
  have h: "\<not> non_null (Ptr (0::nat)) \<or> \<not> non_null (nullptr :: member ptr)"
    by simp
  show ?thesis
    using set_null_accepted_invoke_noop [OF h, of empty_slot code_Void "two_cells 0 7" code_Arg 5 code_RefArg 1
        code_PtrArg "Ptr 1"]
    by simp
qed

end
